theory Spec2Isabelle
  imports Main "HOL-Library.Sublist"
begin

section \<open>The service worker of the attendance tracker\<close>

text \<open>
  The repository is one script, \<^verbatim>\<open>static/service-worker.js\<close>: three event handlers
  (install, activate, fetch) over the host's cache storage and network. The handlers are
  embedded as functions on an explicit world: the cache storage and a trace of the host
  operations issued so far. The network is a parameter of each handler run.

  A handler's promise chain is run to its end: the world a handler returns is the one
  reached when every task it started has settled, including the stores that the script
  starts without awaiting them. What the script hands to \<^verbatim>\<open>event.respondWith\<close> or
  \<^verbatim>\<open>event.waitUntil\<close> is returned as a settled promise.
\<close>

subsection \<open>Data\<close>

text \<open>
  A URL as the script reads it: \<^verbatim>\<open>new URL(request.url)\<close> gives the components, of which the
  script inspects \<^verbatim>\<open>pathname\<close> only. The whole URL is the key of a cached entry.
\<close>

record url =
  origin :: string
  pathname :: string
  search :: string

record request =
  "method" :: string
  url :: url

record response =
  status :: nat
  body :: string
  bodyUsed :: bool

text \<open>\<^verbatim>\<open>res.ok\<close>: the status is in the range 200 to 299.\<close>

definition ok :: "response \<Rightarrow> bool" where
  "ok res = (200 \<le> status res \<and> status res \<le> 299)"

datatype error = NetworkError | BadStatus nat | BodyUsed

text \<open>A settled promise: fulfilled with a value or rejected with an error.\<close>

datatype 'a promise = Resolved 'a | Rejected error

text \<open>\<^verbatim>\<open>fetch(request)\<close> of the host: a response (of any status) or a rejection.\<close>

type_synonym network = "request \<Rightarrow> error + response"

text \<open>
  A cache namespace maps request keys to response snapshots. The cache storage holds the
  named namespaces in the order of their creation, the order in which
  \<^verbatim>\<open>caches.match\<close> visits them.
\<close>

type_synonym cache = "url \<rightharpoonup> response"

type_synonym cache_storage = "(string \<times> cache) list"

datatype event =
    Fetch request
  | Match url
  | Open string
  | Put string url response
  | Delete string
  | Keys
  | SkipWaiting
  | ClientsClaim

record world =
  caches :: cache_storage
  trace :: "event list"

definition emit :: "event \<Rightarrow> world \<Rightarrow> world" where
  "emit e w = w\<lparr>trace := trace w @ [e]\<rparr>"

subsection \<open>Constants of the script\<close>

definition CACHE_VERSION :: string where
  "CACHE_VERSION = ''attendance-v1''"

definition STATIC_CACHE :: string where
  "STATIC_CACHE = ''static-'' @ CACHE_VERSION"

definition RUNTIME_CACHE :: string where
  "RUNTIME_CACHE = ''runtime-'' @ CACHE_VERSION"

definition APP_SHELL :: "string list" where
  "APP_SHELL = [''/'', ''/static/manifest.json'']"

subsection \<open>Host primitives\<close>

text \<open>
  The cache storage and the network belong to the host, not to the repository. They are
  modelled as an ideal store: a \<^verbatim>\<open>put\<close> that is called succeeds and replaces the entry of its key,
  a lookup compares URLs (no \<^verbatim>\<open>Vary\<close> header), deleting a namespace always succeeds.
  Quota errors and the host's refusal of particular responses are outside the model.
\<close>

text \<open>\<^verbatim>\<open>str.startsWith(p)\<close>.\<close>

definition startsWith :: "string \<Rightarrow> string \<Rightarrow> bool" where
  "startsWith s p = prefix p s"

text \<open>\<^verbatim>\<open>cache.match\<close> on the namespace of one name: the spec's lookup in a namespace.\<close>

definition cache_match :: "string \<Rightarrow> cache_storage \<Rightarrow> url \<Rightarrow> response option" where
  "cache_match name cs k = (case map_of cs name of None \<Rightarrow> None | Some c \<Rightarrow> c k)"

text \<open>\<^verbatim>\<open>caches.match\<close> on the storage: the first entry of the key in any namespace.\<close>

fun storage_match :: "cache_storage \<Rightarrow> url \<Rightarrow> response option" where
  "storage_match [] k = None"
| "storage_match ((n, c) # cs) k =
     (case c k of Some r \<Rightarrow> Some r | None \<Rightarrow> storage_match cs k)"

fun storage_put :: "string \<Rightarrow> url \<Rightarrow> response \<Rightarrow> cache_storage \<Rightarrow> cache_storage" where
  "storage_put name k r [] = []"
| "storage_put name k r ((n, c) # cs) =
     (if n = name then (n, c(k \<mapsto> r)) # cs else (n, c) # storage_put name k r cs)"

definition storage_open :: "string \<Rightarrow> cache_storage \<Rightarrow> cache_storage" where
  "storage_open name cs =
     (if name \<in> set (map fst cs) then cs else cs @ [(name, Map.empty)])"

definition storage_delete :: "string \<Rightarrow> cache_storage \<Rightarrow> cache_storage" where
  "storage_delete name cs = filter (\<lambda>(n, c). n \<noteq> name) cs"

definition caches_match :: "world \<Rightarrow> request \<Rightarrow> response option \<times> world" where
  "caches_match w q = (storage_match (caches w) (url q), emit (Match (url q)) w)"

definition caches_open :: "string \<Rightarrow> world \<Rightarrow> world" where
  "caches_open name w = emit (Open name) (w\<lparr>caches := storage_open name (caches w)\<rparr>)"

definition cache_put :: "string \<Rightarrow> url \<Rightarrow> response \<Rightarrow> world \<Rightarrow> world" where
  "cache_put name k r w =
     emit (Put name k r) (w\<lparr>caches := storage_put name k r (caches w)\<rparr>)"

definition caches_keys :: "world \<Rightarrow> string list \<times> world" where
  "caches_keys w = (map fst (caches w), emit Keys w)"

definition caches_delete :: "string \<Rightarrow> world \<Rightarrow> world" where
  "caches_delete name w =
     emit (Delete name) (w\<lparr>caches := storage_delete name (caches w)\<rparr>)"

definition fetch :: "network \<Rightarrow> world \<Rightarrow> request \<Rightarrow> (error + response) \<times> world" where
  "fetch net w q = (net q, emit (Fetch q) w)"

text \<open>
  \<^verbatim>\<open>res.clone()\<close> throws a \<^verbatim>\<open>TypeError\<close> when the body of the response is already used.
\<close>

definition clone :: "response \<Rightarrow> error + response" where
  "clone res = (if bodyUsed res then Inl BodyUsed else Inr res)"

text \<open>
  A response object after \<^verbatim>\<open>event.respondWith\<close> was given it: the host sends its body to
  the page, and the body is used from then on.
\<close>

definition respondedWith :: "response \<Rightarrow> response" where
  "respondedWith res = res\<lparr>bodyUsed := True\<rparr>"

definition skipWaiting :: "world \<Rightarrow> world" where
  "skipWaiting w = emit SkipWaiting w"

definition clients_claim :: "world \<Rightarrow> world" where
  "clients_claim w = emit ClientsClaim w"

text \<open>
  Modelled from the spec: \<^verbatim>\<open>cache.addAll\<close> is a primitive of the host, absent from the
  repository. The spec (4.1, 7) gives it batch semantics: every resource of the list is
  fetched and stored, and if any of them is unreachable the whole operation fails and no
  resource is committed on its own. A resource counts as reached when its fetch resolves
  with a success status, as the host does it.
\<close>

fun fetch_all :: "network \<Rightarrow> request list \<Rightarrow> error + (url \<times> response) list" where
  "fetch_all net [] = Inr []"
| "fetch_all net (q # qs) =
     (case net q of
        Inl e \<Rightarrow> Inl e
      | Inr r \<Rightarrow>
          if \<not> ok r then Inl (BadStatus (status r))
          else (case fetch_all net qs of
                  Inl e \<Rightarrow> Inl e
                | Inr rs \<Rightarrow> Inr ((url q, r) # rs)))"

fun put_all :: "string \<Rightarrow> (url \<times> response) list \<Rightarrow> world \<Rightarrow> world" where
  "put_all name [] w = w"
| "put_all name ((k, r) # rs) w = put_all name rs (cache_put name k r w)"

fun fetch_log :: "request list \<Rightarrow> world \<Rightarrow> world" where
  "fetch_log [] w = w"
| "fetch_log (q # qs) w = fetch_log qs (emit (Fetch q) w)"

definition cache_addAll ::
  "network \<Rightarrow> string \<Rightarrow> request list \<Rightarrow> world \<Rightarrow> (error + unit) \<times> world" where
  "cache_addAll net name qs w =
     (let w1 = fetch_log qs w in
      case fetch_all net qs of
        Inl e \<Rightarrow> (Inl e, w1)
      | Inr rs \<Rightarrow> (Inr (), put_all name rs w1))"

subsection \<open>The install handler\<close>

text \<open>An entry of \<^verbatim>\<open>APP_SHELL\<close> is a path, requested with GET at the worker's own origin.\<close>

definition shell_request :: "string \<Rightarrow> string \<Rightarrow> request" where
  "shell_request loc p =
     \<lparr>method = ''GET'', url = \<lparr>origin = loc, pathname = p, search = ''''\<rparr>\<rparr>"

definition install :: "string \<Rightarrow> network \<Rightarrow> world \<Rightarrow> unit promise \<times> world" where
  "install loc net w =
     (let w1 = caches_open STATIC_CACHE w in
      case cache_addAll net STATIC_CACHE (map (shell_request loc) APP_SHELL) w1 of
        (Inl e, w2) \<Rightarrow> (Rejected e, w2)
      | (Inr u, w2) \<Rightarrow> (Resolved (), skipWaiting w2))"

subsection \<open>The activate handler\<close>

text \<open>
  The handler deletes every namespace whose name the list
  \<^verbatim>\<open>[STATIC_CACHE, RUNTIME_CACHE]\<close> does not include. The list is a parameter of
  \<open>activate_keeping\<close>; the script's handler is \<open>activate\<close>.
\<close>

fun delete_all :: "string list \<Rightarrow> world \<Rightarrow> world" where
  "delete_all [] w = w"
| "delete_all (k # ks) w = delete_all ks (caches_delete k w)"

definition activate_keeping :: "string list \<Rightarrow> world \<Rightarrow> unit promise \<times> world" where
  "activate_keeping keep w =
     (let (keys, w1) = caches_keys w;
          w2 = delete_all (filter (\<lambda>k. k \<notin> set keep) keys) w1
      in (Resolved (), clients_claim w2))"

definition activate :: "world \<Rightarrow> unit promise \<times> world" where
  "activate = activate_keeping [STATIC_CACHE, RUNTIME_CACHE]"

subsection \<open>The fetch handler\<close>

text \<open>
  The handler either returns without calling \<^verbatim>\<open>event.respondWith\<close> (the request goes to
  the network as if there were no worker) or responds with a promise. A promise fulfilled
  with \<open>None\<close> is one fulfilled with \<^verbatim>\<open>undefined\<close>.
\<close>

datatype reply = NotIntercepted | RespondWith "response option promise"

text \<open>
  The store of the script,
  \<^verbatim>\<open>caches.open(name).then(cache => cache.put(request, res.clone()))\<close>, is started without
  being awaited and with no handler for a rejection. \<^verbatim>\<open>caches.open\<close> is called at once;
  \<^verbatim>\<open>res.clone()\<close> is evaluated later, in the callback, once the namespace is open. When it
  throws, \<^verbatim>\<open>cache.put\<close> is not called and the rejection is lost.
\<close>

definition store :: "string \<Rightarrow> request \<Rightarrow> response \<Rightarrow> world \<Rightarrow> world" where
  "store name request res w =
     (let w1 = caches_open name w in
      case clone res of
        Inl e \<Rightarrow> w1
      | Inr copy \<Rightarrow> cache_put name (url request) copy w1)"

text \<open>
  The branches, in the order of the script. In \<^verbatim>\<open>cached || fetch(request)...\<close> the right
  operand, the fetch with its handlers, is evaluated only when the lookup gave
  \<^verbatim>\<open>undefined\<close>. In the root branch the chain ends in \<^verbatim>\<open>.catch(() => cached)\<close>, which
  turns a rejection into the value of \<^verbatim>\<open>cached\<close>, \<^verbatim>\<open>undefined\<close> at that point; the
  static branch has no \<^verbatim>\<open>catch\<close>. In the branch of the dynamic endpoints the store is
  guarded by \<^verbatim>\<open>res.ok\<close> and the \<^verbatim>\<open>catch\<close> answers with \<^verbatim>\<open>caches.match(request)\<close>.

  In the three places where the script stores, the callback that starts the store ends in
  \<^verbatim>\<open>return res\<close>: the promise given to \<^verbatim>\<open>event.respondWith\<close> is fulfilled with \<^verbatim>\<open>res\<close>
  before the callback of \<^verbatim>\<open>caches.open\<close> runs. The store is therefore run on
  \<open>respondedWith res\<close>, the response after the host took it.
\<close>

definition isAPI :: "string \<Rightarrow> bool" where
  "isAPI p = (startsWith p ''/attendance'' \<or> startsWith p ''/export.xlsx''
               \<or> startsWith p ''/justifications_report.xlsx'')"

definition isStatic :: "string \<Rightarrow> bool" where
  "isStatic p = startsWith p ''/static/''"

definition fetch_handler :: "network \<Rightarrow> world \<Rightarrow> request \<Rightarrow> reply \<times> world" where
  "fetch_handler net w request =
     (if method request \<noteq> ''GET'' then (NotIntercepted, w)
      else if pathname (url request) = ''/'' then
        (case caches_match w request of
           (Some cached, w1) \<Rightarrow> (RespondWith (Resolved (Some cached)), w1)
         | (None, w1) \<Rightarrow>
             (case fetch net w1 request of
                (Inr res, w2) \<Rightarrow>
                  (RespondWith (Resolved (Some res)),
                   store STATIC_CACHE request (respondedWith res) w2)
              | (Inl e, w2) \<Rightarrow> (RespondWith (Resolved None), w2)))
      else if isAPI (pathname (url request)) then
        (case fetch net w request of
           (Inr res, w1) \<Rightarrow>
             (RespondWith (Resolved (Some res)),
              if ok res
              then store RUNTIME_CACHE request (respondedWith res) w1
              else w1)
         | (Inl e, w1) \<Rightarrow>
             (case caches_match w1 request of
                (found, w2) \<Rightarrow> (RespondWith (Resolved found), w2)))
      else if isStatic (pathname (url request)) then
        (case caches_match w request of
           (Some cached, w1) \<Rightarrow> (RespondWith (Resolved (Some cached)), w1)
         | (None, w1) \<Rightarrow>
             (case fetch net w1 request of
                (Inr res, w2) \<Rightarrow>
                  (RespondWith (Resolved (Some res)),
                   store STATIC_CACHE request (respondedWith res) w2)
              | (Inl e, w2) \<Rightarrow> (RespondWith (Rejected e), w2)))
      else (NotIntercepted, w))"

subsection \<open>The routing invariant\<close>

text \<open>
  Which keys a namespace may hold: the static namespace the root page and the static
  assets, the runtime namespace the dynamic endpoints. \<open>routed\<close> says it of the
  entries in the storage, \<open>allowed_put\<close> of a store that the trace records.
\<close>

definition routed :: "cache_storage \<Rightarrow> bool" where
  "routed cs =
     (\<forall>k. (cache_match STATIC_CACHE cs k \<noteq> None \<longrightarrow>
            pathname k = ''/'' \<or> isStatic (pathname k))
        \<and> (cache_match RUNTIME_CACHE cs k \<noteq> None \<longrightarrow> isAPI (pathname k)))"

fun allowed_put :: "event \<Rightarrow> bool" where
  "allowed_put (Put n k r) =
     ((n = STATIC_CACHE \<and> (pathname k = ''/'' \<or> isStatic (pathname k)))
      \<or> (n = RUNTIME_CACHE \<and> isAPI (pathname k)))"
| "allowed_put e = True"

definition routing_invariant :: "world \<Rightarrow> bool" where
  "routing_invariant w = (routed (caches w) \<and> list_all allowed_put (trace w))"

text \<open>
  The worlds that the three handlers build from an empty storage, on any network and for
  any requests, and what holds of the names of their namespaces.
\<close>

inductive reachable :: "world \<Rightarrow> bool" where
  fresh: "reachable \<lparr>caches = [], trace = []\<rparr>"
| installed: "reachable w \<Longrightarrow> reachable (snd (install loc net w))"
| activated: "reachable w \<Longrightarrow> reachable (snd (activate w))"
| fetched: "reachable w \<Longrightarrow> reachable (snd (fetch_handler net w q))"

definition named :: "cache_storage \<Rightarrow> bool" where
  "named cs = (distinct (map fst cs) \<and> set (map fst cs) \<subseteq> {STATIC_CACHE, RUNTIME_CACHE})"

subsection \<open>Sample inputs\<close>

definition get :: "string \<Rightarrow> request" where
  "get p = \<lparr>method = ''GET'',
            url = \<lparr>origin = ''https://app.example'', pathname = p, search = ''''\<rparr>\<rparr>"

definition post :: "string \<Rightarrow> request" where
  "post p = \<lparr>method = ''POST'',
             url = \<lparr>origin = ''https://app.example'', pathname = p, search = ''''\<rparr>\<rparr>"

definition page :: "nat \<Rightarrow> string \<Rightarrow> response" where
  "page s b = \<lparr>status = s, body = b, bodyUsed = False\<rparr>"

definition net_down :: network where
  "net_down q = Inl NetworkError"

definition net_serving :: "response \<Rightarrow> network" where
  "net_serving r q = Inr r"

definition fresh_world :: world where
  "fresh_world = \<lparr>caches = [], trace = []\<rparr>"

definition world_of :: "cache_storage \<Rightarrow> world" where
  "world_of cs = \<lparr>caches = cs, trace = []\<rparr>"

text \<open>The root page is in the static namespace, as after an install.\<close>

definition shell_world :: world where
  "shell_world = world_of [(STATIC_CACHE, [url (get ''/'') \<mapsto> page 200 ''v1''])]"

text \<open>The runtime namespace holds an answer of a dynamic endpoint.\<close>

definition runtime_world :: world where
  "runtime_world = world_of
     [(STATIC_CACHE, Map.empty),
      (RUNTIME_CACHE, [url (get ''/attendance'') \<mapsto> page 200 ''rows''])]"

text \<open>A network on which the root page is reachable and nothing else is.\<close>

definition net_root_only :: network where
  "net_root_only q =
     (if pathname (url q) = ''/'' then Inr (page 200 ''shell'') else Inl NetworkError)"

text \<open>Namespaces of an earlier version beside the current static one.\<close>

definition upgraded_world :: world where
  "upgraded_world = world_of
     [(''static-attendance-v0'', [url (get ''/'') \<mapsto> page 200 ''v0'']),
      (STATIC_CACHE, [url (get ''/'') \<mapsto> page 200 ''v1'']),
      (''runtime-attendance-v0'', Map.empty)]"

section \<open>Lemmas on the host primitives\<close>

lemma world_simps [simp]:
  "caches (emit e w) = caches w"
  "trace (emit e w) = trace w @ [e]"
  by (simp_all add: emit_def)

lemma put_world [simp]:
  "caches (cache_put n k r w) = storage_put n k r (caches w)"
  "trace (cache_put n k r w) = trace w @ [Put n k r]"
  "caches (caches_open n w) = storage_open n (caches w)"
  "trace (caches_open n w) = trace w @ [Open n]"
  by (simp_all add: cache_put_def caches_open_def)

lemma caches_delete_world [simp]:
  "caches (caches_delete k w) = storage_delete k (caches w)"
  "trace (caches_delete k w) = trace w @ [Delete k]"
  by (simp_all add: caches_delete_def)

lemma fetch_log_world [simp]:
  "caches (fetch_log qs w) = caches w"
  "trace (fetch_log qs w) = trace w @ map Fetch qs"
  by (induction qs arbitrary: w) simp_all

subsection \<open>Path classes and namespace names\<close>

lemma isAPI_not_root: "isAPI p \<Longrightarrow> p \<noteq> ''/''"
  by (auto simp: isAPI_def startsWith_def)

lemma isStatic_not_root: "isStatic p \<Longrightarrow> p \<noteq> ''/''"
  by (auto simp: isStatic_def startsWith_def)

lemma isStatic_not_API: "isStatic p \<Longrightarrow> \<not> isAPI p"
  by (auto simp: isStatic_def isAPI_def startsWith_def prefix_def)

lemma names_ne: "STATIC_CACHE \<noteq> RUNTIME_CACHE"
  by (simp add: STATIC_CACHE_def RUNTIME_CACHE_def)

subsection \<open>Lookups after a store\<close>

lemma fst_storage_put [simp]: "map fst (storage_put name k r cs) = map fst cs"
  by (induction cs) auto

lemma names_storage_put [simp]: "fst ` set (storage_put name k r cs) = fst ` set cs"
  using fst_storage_put [of name k r cs] by (metis set_map)

lemma name_in_open: "name \<in> fst ` set (storage_open name cs)"
  by (auto simp: storage_open_def)

lemma map_of_storage_put:
  "map_of (storage_put name k r cs) n =
     (if n = name
      then (case map_of cs n of None \<Rightarrow> None | Some c \<Rightarrow> Some (c(k \<mapsto> r)))
      else map_of cs n)"
  by (induction cs) auto

lemma cache_match_put_same:
  "name \<in> fst ` set cs \<Longrightarrow> cache_match name (storage_put name k r cs) k = Some r"
  by (auto simp: cache_match_def map_of_storage_put map_of_eq_None_iff split: option.splits)

lemma cache_match_put_other:
  "n \<noteq> name \<or> k' \<noteq> k \<Longrightarrow>
   cache_match n (storage_put name k r cs) k' = cache_match n cs k'"
  by (auto simp: cache_match_def map_of_storage_put split: option.splits)

lemma cache_match_put_cases:
  "cache_match n (storage_put name k r cs) k' \<noteq> None \<Longrightarrow>
   (n = name \<and> k' = k) \<or> cache_match n cs k' \<noteq> None"
  by (cases "n = name \<and> k' = k") (auto simp: cache_match_put_other)

lemma cache_match_open [simp]: "cache_match n (storage_open name cs) k = cache_match n cs k"
  by (induction cs) (auto simp: cache_match_def storage_open_def split: option.splits)

lemma storage_match_open [simp]: "storage_match (storage_open name cs) k = storage_match cs k"
  by (induction cs) (auto simp: storage_open_def split: option.splits)

lemma storage_match_None_iff:
  "storage_match cs k = None \<longleftrightarrow> (\<forall>(n, c) \<in> set cs. c k = None)"
  by (induction cs) (auto split: option.splits)

text \<open>
  When the names of the storage are distinct and only the namespace \<open>name\<close> may hold the
  key, the lookup over the whole storage is the lookup in that namespace.
\<close>

lemma storage_match_only:
  assumes "distinct (map fst cs)"
    and "\<forall>(n, c) \<in> set cs. n \<noteq> name \<longrightarrow> c k = None"
  shows "storage_match cs k = cache_match name cs k"
  using assms
proof (induction cs)
  case Nil
  then show ?case by (simp add: cache_match_def)
next
  case (Cons a cs)
  obtain n c where a: "a = (n, c)" by (cases a)
  show ?case
  proof (cases "n = name")
    case True
    with Cons.prems(1) have "\<forall>(n', c') \<in> set cs. n' \<noteq> name"
      by (force simp: a)
    with Cons.prems(2) have "\<forall>(n', c') \<in> set cs. c' k = None"
      by auto
    then have "storage_match cs k = None"
      by (simp add: storage_match_None_iff)
    with True show ?thesis
      by (simp add: a cache_match_def split: option.splits)
  next
    case False
    with Cons.prems(2) have ck: "c k = None" by (simp add: a)
    from Cons.prems have "storage_match cs k = cache_match name cs k"
      by (intro Cons.IH) auto
    with False ck show ?thesis
      by (simp add: a cache_match_def)
  qed
qed

subsection \<open>Evaluating the sample inputs\<close>

lemmas sample_defs = get_def post_def page_def net_down_def net_serving_def fresh_world_def
  world_of_def shell_world_def runtime_world_def net_root_only_def
  upgraded_world_def
  STATIC_CACHE_def RUNTIME_CACHE_def CACHE_VERSION_def

section \<open>The install handler\<close>

lemma fetch_all_Inr:
  "fetch_all net qs = Inr rs \<Longrightarrow>
   rs = map (\<lambda>q. (url q, projr (net q))) qs
   \<and> (\<forall>q \<in> set qs. \<not> isl (net q) \<and> ok (projr (net q)))"
  by (induction qs arbitrary: rs) (auto split: sum.splits if_splits)

lemma fetch_all_Inl:
  assumes "\<exists>q \<in> set qs. isl (net q)"
  shows "\<exists>e. fetch_all net qs = Inl e"
proof (cases "fetch_all net qs")
  case (Inl e)
  then show ?thesis by blast
next
  case (Inr rs)
  from fetch_all_Inr [OF this] assms show ?thesis by blast
qed

lemma trace_put_all: "trace (put_all name rs w) = trace w @ map (\<lambda>(k, r). Put name k r) rs"
  by (induction rs arbitrary: w) auto

text \<open>
  Claim C5. When the install succeeds, every resource of \<^verbatim>\<open>APP_SHELL\<close> was fetched and the
  static namespace holds the fetched response for it. When one of the resources is
  unreachable, the install is rejected and every lookup in every namespace gives what it
  gave before: no resource of the list was committed.
\<close>

theorem install_app_shell:
  "(fst (install loc net w) = Resolved () \<longrightarrow>
      (\<forall>R \<in> set APP_SHELL. \<exists>r. net (shell_request loc R) = Inr r \<and>
         cache_match STATIC_CACHE (caches (snd (install loc net w)))
           (url (shell_request loc R)) = Some r))
   \<and> ((\<exists>R \<in> set APP_SHELL. isl (net (shell_request loc R))) \<longrightarrow>
      (\<exists>e. fst (install loc net w) = Rejected e)
      \<and> (\<forall>n k. cache_match n (caches (snd (install loc net w))) k = cache_match n (caches w) k))"
proof (intro conjI impI)
  assume ok: "fst (install loc net w) = Resolved ()"
  let ?qs = "map (shell_request loc) APP_SHELL"
  from ok obtain rs where rs: "fetch_all net ?qs = Inr rs"
    by (cases "fetch_all net ?qs") (auto simp: install_def cache_addAll_def)
  note info = fetch_all_Inr [OF rs]
  have w': "caches (snd (install loc net w)) =
      caches (put_all STATIC_CACHE rs (fetch_log ?qs (caches_open STATIC_CACHE w)))"
    using rs by (simp add: install_def cache_addAll_def skipWaiting_def)
  show "\<forall>R \<in> set APP_SHELL. \<exists>r. net (shell_request loc R) = Inr r \<and>
         cache_match STATIC_CACHE (caches (snd (install loc net w)))
           (url (shell_request loc R)) = Some r"
    unfolding w' using info
    by (auto simp: name_in_open cache_match_put_same cache_match_put_other
        APP_SHELL_def shell_request_def)
next
  assume "\<exists>R \<in> set APP_SHELL. isl (net (shell_request loc R))"
  then have "\<exists>q \<in> set (map (shell_request loc) APP_SHELL). isl (net q)" by simp
  from fetch_all_Inl [OF this] obtain e
    where e: "fetch_all net (map (shell_request loc) APP_SHELL) = Inl e" by blast
  show "\<exists>e. fst (install loc net w) = Rejected e"
    using e by (simp add: install_def cache_addAll_def)
  show "\<forall>n k. cache_match n (caches (snd (install loc net w))) k = cache_match n (caches w) k"
    using e by (simp add: install_def cache_addAll_def)
qed

theorem install_app_shell_witness:
  "fst (install ''https://app.example'' (net_serving (page 200 ''shell'')) fresh_world)
     = Resolved ()
   \<and> cache_match STATIC_CACHE
        (caches (snd (install ''https://app.example'' (net_serving (page 200 ''shell''))
           fresh_world)))
        (url (get ''/static/manifest.json'')) = Some (page 200 ''shell'')
   \<and> isl (net_root_only (shell_request ''https://app.example'' ''/static/manifest.json''))
   \<and> fst (install ''https://app.example'' net_root_only fresh_world) = Rejected NetworkError
   \<and> cache_match STATIC_CACHE
        (caches (snd (install ''https://app.example'' net_root_only fresh_world)))
        (url (get ''/'')) = None"
proof -
  let ?loc = "''https://app.example''"
  have a: "fst (install ?loc (net_serving (page 200 ''shell'')) fresh_world) = Resolved ()"
    by (simp add: install_def cache_addAll_def APP_SHELL_def shell_request_def ok_def
        sample_defs)
  have m: "''/static/manifest.json'' \<in> set APP_SHELL"
    by (simp add: APP_SHELL_def)
  from install_app_shell [of ?loc "net_serving (page 200 ''shell'')" fresh_world] a m
  have "\<exists>r. net_serving (page 200 ''shell'') (shell_request ?loc ''/static/manifest.json'')
            = Inr r
         \<and> cache_match STATIC_CACHE
              (caches (snd (install ?loc (net_serving (page 200 ''shell'')) fresh_world)))
              (url (shell_request ?loc ''/static/manifest.json'')) = Some r"
    by blast
  then have b: "cache_match STATIC_CACHE
        (caches (snd (install ?loc (net_serving (page 200 ''shell'')) fresh_world)))
        (url (get ''/static/manifest.json'')) = Some (page 200 ''shell'')"
    by (auto simp: net_serving_def shell_request_def get_def)
  have c: "isl (net_root_only (shell_request ?loc ''/static/manifest.json''))"
    by (simp add: net_root_only_def shell_request_def)
  with m have "\<exists>R \<in> set APP_SHELL. isl (net_root_only (shell_request ?loc R))"
    by blast
  with install_app_shell [of ?loc net_root_only fresh_world]
  have d: "(\<exists>e. fst (install ?loc net_root_only fresh_world) = Rejected e)"
    and e: "cache_match STATIC_CACHE (caches (snd (install ?loc net_root_only fresh_world)))
        (url (get ''/'')) = cache_match STATIC_CACHE (caches fresh_world) (url (get ''/''))"
    by blast+
  have f: "fst (install ?loc net_root_only fresh_world) = Rejected NetworkError"
    by (simp add: install_def cache_addAll_def APP_SHELL_def shell_request_def ok_def
        sample_defs)
  from a b c f e show ?thesis
    by (simp add: cache_match_def fresh_world_def)
qed

section \<open>The activate handler\<close>

lemma caches_delete_all:
  "caches (delete_all ks w) = filter (\<lambda>(n, c). n \<notin> set ks) (caches w)"
proof (induction ks arbitrary: w)
  case Nil
  then show ?case by simp
next
  case (Cons k ks)
  have "caches (delete_all (k # ks) w) =
          filter (\<lambda>(n, c). n \<notin> set ks) (filter (\<lambda>(n, c). n \<noteq> k) (caches w))"
    by (simp add: Cons.IH storage_delete_def)
  also have "\<dots> = filter (\<lambda>(n, c). n \<notin> set (k # ks)) (caches w)"
    by (auto intro: filter_cong)
  finally show ?case .
qed

lemma trace_delete_all: "trace (delete_all ks w) = trace w @ map Delete ks"
  by (induction ks arbitrary: w) simp_all

lemma caches_activate_keeping:
  "caches (snd (activate_keeping keep w)) = filter (\<lambda>(n, c). n \<in> set keep) (caches w)"
proof -
  have "caches (snd (activate_keeping keep w)) =
          filter (\<lambda>(n, c). n \<notin> set (filter (\<lambda>k. k \<notin> set keep) (map fst (caches w))))
            (caches w)"
    by (simp add: activate_keeping_def caches_keys_def clients_claim_def caches_delete_all)
  also have "\<dots> = filter (\<lambda>(n, c). n \<in> set keep) (caches w)"
    by (rule filter_cong) force+
  finally show ?thesis .
qed

text \<open>
  Claim C6. After activation the names of the storage are among the current static and
  runtime names: the storage is the old one restricted to these two names, every other
  namespace is deleted. With the current names \<open>static-v1\<close> and \<open>runtime-v1\<close> and the
  storage holding \<open>static-v0\<close> and \<open>runtime-v0\<close>, both are deleted.
\<close>

theorem activate_purges:
  "set (map fst (caches (snd (activate w)))) \<subseteq> {STATIC_CACHE, RUNTIME_CACHE}
   \<and> caches (snd (activate w)) =
       filter (\<lambda>(n, c). n = STATIC_CACHE \<or> n = RUNTIME_CACHE) (caches w)
   \<and> map fst (caches (snd (activate_keeping [''static-v1'', ''runtime-v1'']
        \<lparr>caches = [(''static-v0'', s0), (''runtime-v0'', r0)], trace = t\<rparr>))) = []
   \<and> trace (snd (activate_keeping [''static-v1'', ''runtime-v1'']
        \<lparr>caches = [(''static-v0'', s0), (''runtime-v0'', r0)], trace = t\<rparr>)) =
       t @ [Keys, Delete ''static-v0'', Delete ''runtime-v0'', ClientsClaim]"
proof -
  have a: "caches (snd (activate w)) =
       filter (\<lambda>(n, c). n = STATIC_CACHE \<or> n = RUNTIME_CACHE) (caches w)"
    by (simp add: activate_def caches_activate_keeping)
  have b: "set (map fst (caches (snd (activate w)))) \<subseteq> {STATIC_CACHE, RUNTIME_CACHE}"
    unfolding a by auto
  have c: "map fst (caches (snd (activate_keeping [''static-v1'', ''runtime-v1'']
        \<lparr>caches = [(''static-v0'', s0), (''runtime-v0'', r0)], trace = t\<rparr>))) = []"
    by (simp add: caches_activate_keeping)
  have d: "trace (snd (activate_keeping [''static-v1'', ''runtime-v1'']
        \<lparr>caches = [(''static-v0'', s0), (''runtime-v0'', r0)], trace = t\<rparr>)) =
       t @ [Keys, Delete ''static-v0'', Delete ''runtime-v0'', ClientsClaim]"
    by (simp add: activate_keeping_def caches_keys_def clients_claim_def)
  from a b c d show ?thesis by blast
qed

theorem activate_purges_witness:
  "map fst (caches upgraded_world) =
     [''static-attendance-v0'', STATIC_CACHE, ''runtime-attendance-v0'']
   \<and> map fst (caches (snd (activate upgraded_world))) = [STATIC_CACHE]
   \<and> storage_match (caches (snd (activate upgraded_world))) (url (get ''/''))
       = Some (page 200 ''v1'')"
  using activate_purges [of upgraded_world]
  by (simp add: sample_defs)

section \<open>The fetch handler\<close>

subsection \<open>Method guard\<close>

text \<open>
  Claim C7. A request whose method is not GET is not intercepted: the handler supplies no
  response and returns the world as it was, so that no namespace was read (the trace has no
  new lookup), no namespace was modified and no fetch was issued. A non-GET request is
  therefore neither stored in nor served from a namespace.
\<close>

theorem non_get_not_intercepted: "method q \<noteq> ''GET'' \<Longrightarrow> fetch_handler net w q = (NotIntercepted, w)"
  by (simp add: fetch_handler_def)

theorem non_get_not_intercepted_witness:
  "method (post ''/justifications'') \<noteq> ''GET''
   \<and> fetch_handler (net_serving (page 200 ''saved'')) shell_world (post ''/justifications'')
       = (NotIntercepted, shell_world)"
proof -
  have h: "method (post ''/justifications'') \<noteq> ''GET''"
    by (simp add: sample_defs)
  from non_get_not_intercepted [OF h] h show ?thesis by simp
qed

subsection \<open>Root page\<close>

text \<open>
  Claim C1, as the script has it. For a GET request of path \<open>/\<close>, when the storage holds a
  matching entry, the handler responds with that entry whatever the network would answer,
  and the only host operation it issues is the lookup: no fetch is issued and nothing is
  stored. There is no refresh in the background.
\<close>

theorem root_cache_first:
  assumes "method q = ''GET''" "pathname (url q) = ''/''"
    and "storage_match (caches w) (url q) = Some c"
  shows "fetch_handler net w q = (RespondWith (Resolved (Some c)), emit (Match (url q)) w)"
  using assms by (simp add: fetch_handler_def caches_match_def)

theorem root_cache_first_witness:
  "method (get ''/'') = ''GET'' \<and> pathname (url (get ''/'')) = ''/''
   \<and> storage_match (caches shell_world) (url (get ''/'')) = Some (page 200 ''v1'')
   \<and> fetch_handler (net_serving (page 200 ''v2'')) shell_world (get ''/'') =
       (RespondWith (Resolved (Some (page 200 ''v1''))), emit (Match (url (get ''/''))) shell_world)"
proof -
  have h: "method (get ''/'') = ''GET''" "pathname (url (get ''/'')) = ''/''"
    "storage_match (caches shell_world) (url (get ''/'')) = Some (page 200 ''v1'')"
    by (simp_all add: sample_defs)
  from root_cache_first [OF h] h show ?thesis by simp
qed

text \<open>
  Claim C1 as stated fails. The root page is cached as \<open>v1\<close> and the network would answer
  \<open>v2\<close>: the handler issues no fetch of the request, and afterwards the static namespace
  does not hold the network's response.
\<close>

theorem root_refresh_counterexample:
  "Fetch (get ''/'') \<notin>
     set (trace (snd (fetch_handler (net_serving (page 200 ''v2'')) shell_world (get ''/''))))
   \<and> cache_match STATIC_CACHE
       (caches (snd (fetch_handler (net_serving (page 200 ''v2'')) shell_world (get ''/''))))
       (url (get ''/'')) \<noteq> Some (page 200 ''v2'')"
  by (simp add: fetch_handler_def caches_match_def cache_match_def sample_defs)

text \<open>
  Claim C2, as the script has it. For a GET request of path \<open>/\<close> with no matching entry
  and a failing fetch, the handler catches the rejection: the promise it responds with is
  fulfilled with the empty result of the lookup (\<^verbatim>\<open>undefined\<close>), not rejected. The host
  operations issued are the lookup and the fetch; nothing is stored.
\<close>

theorem root_miss_offline:
  assumes "method q = ''GET''" "pathname (url q) = ''/''"
    and "storage_match (caches w) (url q) = None" "net q = Inl e"
  shows "fetch_handler net w q =
    (RespondWith (Resolved None), emit (Fetch q) (emit (Match (url q)) w))"
  using assms by (simp add: fetch_handler_def caches_match_def fetch_def)

theorem root_miss_offline_witness:
  "method (get ''/'') = ''GET'' \<and> pathname (url (get ''/'')) = ''/''
   \<and> storage_match (caches fresh_world) (url (get ''/'')) = None
   \<and> net_down (get ''/'') = Inl NetworkError
   \<and> fetch_handler net_down fresh_world (get ''/'') =
       (RespondWith (Resolved None),
        emit (Fetch (get ''/'')) (emit (Match (url (get ''/''))) fresh_world))"
proof -
  have h: "method (get ''/'') = ''GET''" "pathname (url (get ''/'')) = ''/''"
    "storage_match (caches fresh_world) (url (get ''/'')) = None"
    "net_down (get ''/'') = Inl NetworkError"
    by (simp_all add: sample_defs)
  from root_miss_offline [where net = net_down and e = NetworkError, OF h] h show ?thesis by simp
qed

text \<open>
  Claim C2 as stated fails. With an empty storage and the network down, the promise for the
  root page is not rejected with the network's error: it is fulfilled with the empty
  result.
\<close>

theorem root_rejection_counterexample:
  "storage_match (caches fresh_world) (url (get ''/'')) = None
   \<and> net_down (get ''/'') = Inl NetworkError
   \<and> fst (fetch_handler net_down fresh_world (get ''/'')) \<noteq> RespondWith (Rejected NetworkError)
   \<and> fst (fetch_handler net_down fresh_world (get ''/'')) = RespondWith (Resolved None)"
  by (simp add: fetch_handler_def caches_match_def fetch_def sample_defs)

subsection \<open>The stores of the handler\<close>

text \<open>
  Every store of the handler is started on a response that the handler has already given
  to \<^verbatim>\<open>event.respondWith\<close>, so that \<^verbatim>\<open>res.clone()\<close> throws in its callback: the namespace is
  opened and nothing is put. The handler therefore changes no lookup, in a namespace or
  over the storage.
\<close>

lemma store_after_respond [simp]:
  "store name q (respondedWith res) w = caches_open name w"
  by (simp add: store_def clone_def respondedWith_def)

lemma fetch_handler_caches:
  "caches (snd (fetch_handler net w q)) = caches w
   \<or> caches (snd (fetch_handler net w q)) = storage_open STATIC_CACHE (caches w)
   \<or> caches (snd (fetch_handler net w q)) = storage_open RUNTIME_CACHE (caches w)"
  by (auto simp: fetch_handler_def caches_match_def fetch_def split: option.splits sum.splits)

lemma fetch_handler_lookups:
  "cache_match n (caches (snd (fetch_handler net w q))) k = cache_match n (caches w) k"
  "storage_match (caches (snd (fetch_handler net w q))) k = storage_match (caches w) k"
  using fetch_handler_caches [of net w q] by auto

subsection \<open>Dynamic endpoints\<close>

text \<open>
  In a storage whose namespaces are the static and the runtime one, each holding only the
  keys of its paths, no namespace but the runtime one holds the key of a dynamic endpoint.
\<close>

lemma only_runtime_holds:
  assumes "routed cs" "named cs" "isAPI (pathname k)"
  shows "\<forall>(n, c) \<in> set cs. n \<noteq> RUNTIME_CACHE \<longrightarrow> c k = None"
proof (clarify)
  fix n c
  assume in_cs: "(n, c) \<in> set cs" and ne: "n \<noteq> RUNTIME_CACHE"
  from in_cs have "n \<in> set (map fst cs)" by force
  with assms(2) ne have n: "n = STATIC_CACHE" by (auto simp: named_def)
  from assms(2) in_cs have "map_of cs n = Some c"
    by (simp add: named_def)
  then have "cache_match STATIC_CACHE cs k = c k"
    by (simp add: cache_match_def n)
  with assms(1,3) isAPI_not_root [of "pathname k"] isStatic_not_API [of "pathname k"]
  show "c k = None"
    by (cases "c k") (auto simp: routed_def)
qed

lemma api_lookup_runtime:
  assumes "routed cs" "named cs" "isAPI (pathname k)"
  shows "storage_match cs k = cache_match RUNTIME_CACHE cs k"
  using assms(2) only_runtime_holds [OF assms]
  by (intro storage_match_only) (simp_all add: named_def)

text \<open>
  Claim C3. The storage is one of the script's data model: its namespaces are the static
  and the runtime one, the static namespace holds keys of the root page and of static
  assets, the runtime namespace keys of dynamic endpoints. The handlers preserve this, and
  it holds of every world they build from an empty storage. For a GET request to a dynamic
  endpoint whose fetch fails, the handler then responds with the entry that the runtime
  namespace holds for the request, or with the empty result when it holds none; no other
  namespace holds an entry for the request, so that none can be returned.
\<close>

theorem api_offline_fallback:
  assumes "method q = ''GET''" "isAPI (pathname (url q))" "net q = Inl e"
    and "routed (caches w)" "named (caches w)"
  shows "fetch_handler net w q =
           (RespondWith (Resolved (cache_match RUNTIME_CACHE (caches w) (url q))),
            emit (Match (url q)) (emit (Fetch q) w))
         \<and> (\<forall>(n, c) \<in> set (caches w). n \<noteq> RUNTIME_CACHE \<longrightarrow> c (url q) = None)"
proof -
  have "fetch_handler net w q =
           (RespondWith (Resolved (storage_match (caches w) (url q))),
            emit (Match (url q)) (emit (Fetch q) w))"
    using assms(1-3) isAPI_not_root [of "pathname (url q)"]
    by (simp add: fetch_handler_def caches_match_def fetch_def)
  with api_lookup_runtime [OF assms(4,5,2)] only_runtime_holds [OF assms(4,5,2)]
  show ?thesis by simp
qed

theorem api_offline_fallback_witness:
  "routed (caches runtime_world) \<and> named (caches runtime_world)
   \<and> fetch_handler net_down runtime_world (get ''/attendance'') =
     (RespondWith (Resolved (Some (page 200 ''rows''))),
      emit (Match (url (get ''/attendance''))) (emit (Fetch (get ''/attendance'')) runtime_world))
   \<and> cache_match RUNTIME_CACHE (caches runtime_world) (url (get ''/attendance''))
       = Some (page 200 ''rows'')
   \<and> fetch_handler net_down runtime_world (get ''/export.xlsx'') =
     (RespondWith (Resolved None),
      emit (Match (url (get ''/export.xlsx''))) (emit (Fetch (get ''/export.xlsx'')) runtime_world))"
proof -
  have h: "method (get ''/attendance'') = ''GET''" "isAPI (pathname (url (get ''/attendance'')))"
    "net_down (get ''/attendance'') = Inl NetworkError"
    by (simp_all add: sample_defs isAPI_def startsWith_def)
  have x: "method (get ''/export.xlsx'') = ''GET''" "isAPI (pathname (url (get ''/export.xlsx'')))"
    "net_down (get ''/export.xlsx'') = Inl NetworkError"
    by (simp_all add: sample_defs isAPI_def startsWith_def)
  have d: "routed (caches runtime_world)" "named (caches runtime_world)"
    by (auto simp: routed_def named_def cache_match_def sample_defs isAPI_def startsWith_def
        split: if_splits)
  have m: "cache_match RUNTIME_CACHE (caches runtime_world) (url (get ''/attendance''))
       = Some (page 200 ''rows'')"
    "cache_match RUNTIME_CACHE (caches runtime_world) (url (get ''/export.xlsx'')) = None"
    by (simp_all add: cache_match_def sample_defs)
  from api_offline_fallback [where net = net_down and e = NetworkError, OF h d]
    api_offline_fallback [where net = net_down and e = NetworkError, OF x d] d m
  show ?thesis by simp
qed

text \<open>
  What the branch does when the fetch resolves: with an error status the response is
  returned and the fetch is the only host operation; with a success status the response
  is returned and the runtime namespace is opened, but nothing is put.
\<close>

lemma api_error_status:
  assumes "method q = ''GET''" "isAPI (pathname (url q))" "net q = Inr res" "\<not> ok res"
  shows "fetch_handler net w q = (RespondWith (Resolved (Some res)), emit (Fetch q) w)"
  using assms isAPI_not_root [of "pathname (url q)"]
  by (simp add: fetch_handler_def fetch_def)

lemma api_success_status:
  assumes "method q = ''GET''" "isAPI (pathname (url q))" "net q = Inr res" "ok res"
  shows "fetch_handler net w q =
    (RespondWith (Resolved (Some res)), caches_open RUNTIME_CACHE (emit (Fetch q) w))"
  using assms isAPI_not_root [of "pathname (url q)"]
  by (simp add: fetch_handler_def fetch_def)

text \<open>
  Claim C4 fails on the script where it says that a response of a success status is
  stored. The runtime namespace holds \<open>rows\<close> for \<open>/attendance\<close> and the network answers
  200 with \<open>new\<close>: the handler returns \<open>new\<close>, opens the runtime namespace and puts
  nothing, so that the namespace still holds \<open>rows\<close> afterwards. The script does attempt
  the store; it is lost because \<^verbatim>\<open>res.clone()\<close> throws.
\<close>

theorem api_success_not_stored:
  "ok (page 200 ''new'')
   \<and> fst (fetch_handler (net_serving (page 200 ''new'')) runtime_world (get ''/attendance''))
       = RespondWith (Resolved (Some (page 200 ''new'')))
   \<and> cache_match RUNTIME_CACHE
        (caches (snd (fetch_handler (net_serving (page 200 ''new'')) runtime_world
           (get ''/attendance''))))
        (url (get ''/attendance'')) = Some (page 200 ''rows'')
   \<and> page 200 ''rows'' \<noteq> page 200 ''new''
   \<and> trace (snd (fetch_handler (net_serving (page 200 ''new'')) runtime_world
        (get ''/attendance''))) = [Fetch (get ''/attendance''), Open RUNTIME_CACHE]"
  by (simp add: fetch_handler_def fetch_def isAPI_def startsWith_def ok_def cache_match_def
      storage_open_def sample_defs)

subsection \<open>Static assets\<close>

text \<open>
  What the branch does: a matching entry is returned with no fetch; with no matching entry
  the network's response is returned and the static namespace is opened, but nothing is
  put; with no matching entry and a failing fetch the promise is rejected with the
  network's error.
\<close>

lemma static_hit:
  assumes "method q = ''GET''" "isStatic (pathname (url q))"
    and "storage_match (caches w) (url q) = Some c"
  shows "fetch_handler net w q = (RespondWith (Resolved (Some c)), emit (Match (url q)) w)"
  using assms isStatic_not_root [of "pathname (url q)"] isStatic_not_API [of "pathname (url q)"]
  by (simp add: fetch_handler_def caches_match_def)

lemma static_miss_online:
  assumes "method q = ''GET''" "isStatic (pathname (url q))"
    and "storage_match (caches w) (url q) = None" "net q = Inr res"
  shows "fetch_handler net w q =
    (RespondWith (Resolved (Some res)),
     caches_open STATIC_CACHE (emit (Fetch q) (emit (Match (url q)) w)))"
  using assms isStatic_not_root [of "pathname (url q)"] isStatic_not_API [of "pathname (url q)"]
  by (simp add: fetch_handler_def caches_match_def fetch_def)

lemma static_miss_offline:
  assumes "method q = ''GET''" "isStatic (pathname (url q))"
    and "storage_match (caches w) (url q) = None" "net q = Inl e"
  shows "fetch_handler net w q =
    (RespondWith (Rejected e), emit (Fetch q) (emit (Match (url q)) w))"
  using assms isStatic_not_root [of "pathname (url q)"] isStatic_not_API [of "pathname (url q)"]
  by (simp add: fetch_handler_def caches_match_def fetch_def)

text \<open>
  Claim C8 fails on the script where it says that, after a miss, the static namespace
  contains an entry for the request. No entry matches \<open>/static/app.js\<close> and the network
  answers 200: the handler returns the response, opens the static namespace and puts
  nothing, so that the namespace holds no entry for the request afterwards. The script
  does attempt the store; it is lost because \<^verbatim>\<open>res.clone()\<close> throws.
\<close>

theorem static_miss_not_stored:
  "storage_match (caches shell_world) (url (get ''/static/app.js'')) = None
   \<and> fst (fetch_handler (net_serving (page 200 ''js'')) shell_world (get ''/static/app.js''))
       = RespondWith (Resolved (Some (page 200 ''js'')))
   \<and> cache_match STATIC_CACHE
        (caches (snd (fetch_handler (net_serving (page 200 ''js'')) shell_world
           (get ''/static/app.js''))))
        (url (get ''/static/app.js'')) = None
   \<and> trace (snd (fetch_handler (net_serving (page 200 ''js'')) shell_world
        (get ''/static/app.js''))) =
       [Match (url (get ''/static/app.js'')), Fetch (get ''/static/app.js''), Open STATIC_CACHE]"
  by (simp add: fetch_handler_def caches_match_def fetch_def isStatic_def isAPI_def
      startsWith_def cache_match_def storage_open_def sample_defs)

text \<open>
  Claim C10 fails on the script: a response of an error status is not cached on a miss,
  because no response is. No entry matches \<open>/static/app.js\<close> and the network answers 404:
  the handler returns the 404 and the static namespace holds no entry for the request
  afterwards; the same request with the network down is then rejected, not answered with
  the 404. The root page behaves alike. The script does attempt the store, with no test of
  the status; it is lost because \<^verbatim>\<open>res.clone()\<close> throws.
\<close>

theorem error_page_not_stored:
  "\<not> ok (page 404 ''missing'')
   \<and> fst (fetch_handler (net_serving (page 404 ''missing'')) fresh_world
        (get ''/static/app.js'')) = RespondWith (Resolved (Some (page 404 ''missing'')))
   \<and> cache_match STATIC_CACHE
        (caches (snd (fetch_handler (net_serving (page 404 ''missing'')) fresh_world
           (get ''/static/app.js''))))
        (url (get ''/static/app.js'')) = None
   \<and> fst (fetch_handler net_down
        (snd (fetch_handler (net_serving (page 404 ''missing'')) fresh_world
           (get ''/static/app.js'')))
        (get ''/static/app.js'')) = RespondWith (Rejected NetworkError)
   \<and> cache_match STATIC_CACHE
        (caches (snd (fetch_handler (net_serving (page 404 ''missing'')) fresh_world
           (get ''/''))))
        (url (get ''/'')) = None"
  by (simp add: fetch_handler_def caches_match_def fetch_def isStatic_def isAPI_def
      startsWith_def ok_def cache_match_def storage_open_def sample_defs)

section \<open>The routing invariant\<close>

lemma routed_put:
  assumes "routed cs" "allowed_put (Put name k r)"
  shows "routed (storage_put name k r cs)"
  unfolding routed_def
proof (intro allI conjI impI)
  fix k'
  assume "cache_match STATIC_CACHE (storage_put name k r cs) k' \<noteq> None"
  from cache_match_put_cases [OF this] assms names_ne
  show "pathname k' = ''/'' \<or> isStatic (pathname k')"
    by (auto simp: routed_def)
next
  fix k'
  assume "cache_match RUNTIME_CACHE (storage_put name k r cs) k' \<noteq> None"
  from cache_match_put_cases [OF this] assms names_ne
  show "isAPI (pathname k')"
    by (auto simp: routed_def)
qed

lemma routed_open [simp]: "routed (storage_open name cs) = routed cs"
  by (simp add: routed_def)

lemma routed_put_all:
  assumes "routed (caches w)" "\<forall>(k, r) \<in> set rs. allowed_put (Put name k r)"
  shows "routed (caches (put_all name rs w))"
  using assms
proof (induction rs arbitrary: w)
  case Nil
  then show ?case by simp
next
  case (Cons a rs)
  obtain k r where a: "a = (k, r)" by (cases a)
  from Cons.prems have "routed (caches (cache_put name k r w))"
    by (simp add: a routed_put)
  with Cons.prems show ?case
    by (simp add: a Cons.IH)
qed

lemma map_of_filter_names:
  "map_of (filter (\<lambda>(n, c). P n) cs) n = (if P n then map_of cs n else None)"
  by (induction cs) auto

lemma routed_filter: "routed cs \<Longrightarrow> routed (filter (\<lambda>(n, c). P n) cs)"
  by (auto simp: routed_def cache_match_def map_of_filter_names split: if_splits)

lemma allowed_fetches [simp]:
  "list_all allowed_put (map Fetch qs)"
  "list_all allowed_put (map (Fetch \<circ> f) xs)"
  by (induction qs, simp_all) (induction xs, simp_all)

lemma allowed_deletes [simp]: "list_all allowed_put (map Delete ks)"
  by (induction ks) simp_all

lemma allowed_puts:
  "\<forall>(k, r) \<in> set rs. allowed_put (Put name k r) \<Longrightarrow>
   list_all allowed_put (map (\<lambda>(k, r). Put name k r) rs)"
  by (induction rs) auto

lemma install_routing:
  assumes "routing_invariant w"
  shows "routing_invariant (snd (install loc net w))"
proof (cases "fetch_all net (map (shell_request loc) APP_SHELL)")
  case (Inl e)
  with assms show ?thesis
    by (simp add: routing_invariant_def install_def cache_addAll_def)
next
  case (Inr rs)
  from fetch_all_Inr [OF this]
  have rs: "\<forall>(k, r) \<in> set rs. allowed_put (Put STATIC_CACHE k r)"
    by (auto simp: APP_SHELL_def shell_request_def isStatic_def startsWith_def)
  then have "list_all allowed_put (map (\<lambda>(k, r). Put STATIC_CACHE k r) rs)"
    by (rule allowed_puts)
  moreover have "routed (caches (put_all STATIC_CACHE rs
      (fetch_log (map (shell_request loc) APP_SHELL) (caches_open STATIC_CACHE w))))"
    using assms rs by (intro routed_put_all) (simp_all add: routing_invariant_def)
  ultimately show ?thesis
    using assms Inr
    by (simp add: routing_invariant_def install_def cache_addAll_def skipWaiting_def
        trace_put_all)
qed

lemma activate_routing:
  assumes "routing_invariant w"
  shows "routing_invariant (snd (activate w))"
proof -
  have "routed (caches (snd (activate w)))"
    using assms
    by (simp add: activate_def caches_activate_keeping routing_invariant_def routed_filter)
  moreover have "list_all allowed_put (trace (snd (activate w)))"
    using assms
    by (simp add: activate_def activate_keeping_def caches_keys_def clients_claim_def
        trace_delete_all routing_invariant_def)
  ultimately show ?thesis
    by (simp add: routing_invariant_def)
qed

lemma fetch_routing:
  assumes "routing_invariant w"
  shows "routing_invariant (snd (fetch_handler net w q))"
  using assms
  by (auto simp: routing_invariant_def fetch_handler_def caches_match_def fetch_def
      split: option.splits sum.splits)




section \<open>Worlds built by the handlers\<close>

text \<open>
  In a world that the handlers have built from an empty storage the routing invariant
  holds and the only namespaces are the static and the runtime one. There the lookup over
  the whole storage, for the key of a dynamic endpoint, is the lookup in the runtime
  namespace.
\<close>

lemma named_open:
  "named cs \<Longrightarrow> name \<in> {STATIC_CACHE, RUNTIME_CACHE} \<Longrightarrow> named (storage_open name cs)"
  by (auto simp: named_def storage_open_def)

lemma named_put [simp]: "named (storage_put name k r cs) = named cs"
  by (simp add: named_def)

lemma named_put_all [simp]: "named (caches (put_all name rs w)) = named (caches w)"
proof (induction rs arbitrary: w)
  case Nil
  then show ?case by simp
next
  case (Cons a rs)
  then show ?case by (cases a) simp
qed

lemma named_filter: "named cs \<Longrightarrow> named (filter P cs)"
  by (auto simp: named_def distinct_map_filter)

lemma install_named: "named (caches w) \<Longrightarrow> named (caches (snd (install loc net w)))"
  by (cases "fetch_all net (map (shell_request loc) APP_SHELL)")
    (simp_all add: install_def cache_addAll_def skipWaiting_def named_open)

lemma activate_named: "named (caches w) \<Longrightarrow> named (caches (snd (activate w)))"
  by (simp add: activate_def caches_activate_keeping named_filter)

lemma fetch_named: "named (caches w) \<Longrightarrow> named (caches (snd (fetch_handler net w q)))"
  by (auto simp: fetch_handler_def caches_match_def fetch_def named_open
      split: option.splits sum.splits)

lemma reachable_invariant:
  "reachable w \<Longrightarrow> routing_invariant w \<and> named (caches w)"
proof (induction rule: reachable.induct)
  case fresh
  then show ?case
    by (simp add: routing_invariant_def routed_def cache_match_def named_def)
next
  case (installed w loc net)
  then show ?case by (simp add: install_routing install_named)
next
  case (activated w)
  then show ?case by (simp add: activate_routing activate_named)
next
  case (fetched w net q)
  then show ?case by (simp add: fetch_routing fetch_named)
qed

lemma reachable_api_fallback:
  assumes "reachable w" "isAPI (pathname k)"
  shows "storage_match (caches w) k = cache_match RUNTIME_CACHE (caches w) k"
  using reachable_invariant [OF assms(1)] assms(2)
  by (intro api_lookup_runtime) (simp_all add: routing_invariant_def)

end
